theory Spec2Isabelle
  imports Main "HOL-Library.Sublist"
begin

section \<open>Strings and the platform functions used by \<open>server.js\<close>\<close>

text \<open>
  Strings are byte lists (UTF-8); the server is modelled on a POSIX host, so
  \<open>path.sep\<close> is the slash. The functions of this section are not code of
  the repository: they are the parts of the JavaScript runtime and of Node's
  \<open>path\<close> module that \<open>server.js\<close> calls, written out so that the
  repository's own functions can be evaluated.
\<close>

subsection \<open>\<open>decodeURIComponent\<close>\<close>

definition hex_digit :: "char \<Rightarrow> nat option" where
  "hex_digit c =
     (let n = (of_char c :: nat) in
      if 48 \<le> n \<and> n \<le> 57 then Some (n - 48)
      else if 65 \<le> n \<and> n \<le> 70 then Some (n - 55)
      else if 97 \<le> n \<and> n \<le> 102 then Some (n - 87)
      else None)"

datatype code_unit = Lit char | Esc nat

text \<open>A percent sign must be followed by two hexadecimal digits (else URIError).\<close>

fun percent_tokens :: "string \<Rightarrow> code_unit list option" where
  "percent_tokens [] = Some []"
| "percent_tokens (c # cs) =
     (if c = CHR ''%'' then
        (case cs of
           a # b # rest \<Rightarrow>
             (case hex_digit a of
                None \<Rightarrow> None
              | Some h \<Rightarrow>
                  (case hex_digit b of
                     None \<Rightarrow> None
                   | Some l \<Rightarrow> map_option ((#) (Esc (16 * h + l))) (percent_tokens rest)))
         | _ \<Rightarrow> None)
      else map_option ((#) (Lit c)) (percent_tokens cs))"

definition cont_byte :: "nat \<Rightarrow> bool" where
  "cont_byte b = (128 \<le> b \<and> b \<le> 191)"

text \<open>
  Escaped octets above 127 must spell well-formed UTF-8, every octet of a
  sequence being itself an escape (else URIError).
\<close>

fun utf8_escapes_ok :: "code_unit list \<Rightarrow> bool" where
  "utf8_escapes_ok [] = True"
| "utf8_escapes_ok (Lit c # ts) = utf8_escapes_ok ts"
| "utf8_escapes_ok (Esc b # ts) =
     (if b < 128 then utf8_escapes_ok ts
      else if 194 \<le> b \<and> b \<le> 223 then
        (case ts of
           Esc c1 # r \<Rightarrow> cont_byte c1 \<and> utf8_escapes_ok r
         | _ \<Rightarrow> False)
      else if 224 \<le> b \<and> b \<le> 239 then
        (case ts of
           Esc c1 # Esc c2 # r \<Rightarrow>
             cont_byte c1 \<and> cont_byte c2
             \<and> (if b = 224 then 160 \<le> c1 else True) \<and> (if b = 237 then c1 \<le> 159 else True)
             \<and> utf8_escapes_ok r
         | _ \<Rightarrow> False)
      else if 240 \<le> b \<and> b \<le> 244 then
        (case ts of
           Esc c1 # Esc c2 # Esc c3 # r \<Rightarrow>
             cont_byte c1 \<and> cont_byte c2 \<and> cont_byte c3
             \<and> (if b = 240 then 144 \<le> c1 else True) \<and> (if b = 244 then c1 \<le> 143 else True)
             \<and> utf8_escapes_ok r
         | _ \<Rightarrow> False)
      else False)"

fun unit_char :: "code_unit \<Rightarrow> char" where
  "unit_char (Lit c) = c"
| "unit_char (Esc b) = char_of b"

text \<open>\<open>None\<close> stands for the URIError that \<open>decodeURIComponent\<close> throws.\<close>

definition decodeURIComponent :: "string \<Rightarrow> string option" where
  "decodeURIComponent s =
     (case percent_tokens s of
        None \<Rightarrow> None
      | Some ts \<Rightarrow> if utf8_escapes_ok ts then Some (map unit_char ts) else None)"

subsection \<open>Node's \<open>path\<close> module (POSIX)\<close>

text \<open>
  Splitting at the separator; \<open>cur\<close> holds the characters of the segment
  being read, last one first.
\<close>

fun split_from :: "string \<Rightarrow> string \<Rightarrow> string list" where
  "split_from cur [] = [rev cur]"
| "split_from cur (c # cs) =
     (if c = CHR ''/'' then rev cur # split_from [] cs else split_from (c # cur) cs)"

definition split_sep :: "string \<Rightarrow> string list" where
  "split_sep p = split_from [] p"

fun join_sep :: "string list \<Rightarrow> string" where
  "join_sep [] = []"
| "join_sep [s] = s"
| "join_sep (s # t # ss) = s @ ''/'' @ join_sep (t # ss)"

text \<open>
  \<open>normalizeString\<close>, segment by segment: empty and \<open>.\<close> segments vanish, a
  \<open>..\<close> removes the segment before it; above the start it is kept when
  \<open>allowAboveRoot\<close> holds and dropped otherwise. The accumulator is the
  stack of kept segments, last one first.
\<close>

fun normalize_segs :: "bool \<Rightarrow> string list \<Rightarrow> string list \<Rightarrow> string list" where
  "normalize_segs allowAboveRoot acc [] = rev acc"
| "normalize_segs allowAboveRoot acc (s # ss) =
     (if s = [] \<or> s = ''.'' then normalize_segs allowAboveRoot acc ss
      else if s = ''..'' then
        (case acc of
           [] \<Rightarrow> normalize_segs allowAboveRoot (if allowAboveRoot then [''..''] else []) ss
         | a # as \<Rightarrow>
             if a = ''..'' then
               normalize_segs allowAboveRoot (if allowAboveRoot then ''..'' # acc else acc) ss
             else normalize_segs allowAboveRoot as ss)
      else normalize_segs allowAboveRoot (s # acc) ss)"

definition normalizeString :: "bool \<Rightarrow> string \<Rightarrow> string" where
  "normalizeString allowAboveRoot p = join_sep (normalize_segs allowAboveRoot [] (split_sep p))"

definition isAbsolute :: "string \<Rightarrow> bool" where
  "isAbsolute p = (case p of [] \<Rightarrow> False | c # _ \<Rightarrow> c = CHR ''/'')"

text \<open>
  \<open>path.resolve(from, to)\<close> for an absolute \<open>from\<close> (the server only calls it
  with the resolved storage root first, so the working directory is never
  consulted).
\<close>

definition path_resolve :: "string \<Rightarrow> string \<Rightarrow> string" where
  "path_resolve from to =
     CHR ''/'' # normalizeString False (if isAbsolute to then to else from @ ''/'' @ to)"

definition path_normalize :: "string \<Rightarrow> string" where
  "path_normalize p =
     (if p = [] then ''.''
      else
        (let trailingSeparator = (last p = CHR ''/'');
             n = normalizeString (\<not> isAbsolute p) p
         in if n = [] then
              (if isAbsolute p then ''/'' else if trailingSeparator then ''./'' else ''.'')
            else (if isAbsolute p then ''/'' else []) @ n
                 @ (if trailingSeparator then ''/'' else [])))"

definition path_join :: "string \<Rightarrow> string \<Rightarrow> string" where
  "path_join a b =
     (if a = [] \<and> b = [] then ''.''
      else if a = [] then path_normalize b
      else if b = [] then path_normalize a
      else path_normalize (a @ ''/'' @ b))"

text \<open>The last component of a path, trailing separators ignored.\<close>

definition last_component :: "string \<Rightarrow> string" where
  "last_component p =
     (case filter (\<lambda>s. s \<noteq> []) (split_sep p) of [] \<Rightarrow> [] | s # ss \<Rightarrow> last (s # ss))"

definition path_basename :: "string \<Rightarrow> string" where
  "path_basename p = last_component p"

text \<open>
  \<open>path.extname\<close>: from the last dot of the last component, unless there is
  no dot, the dot is the component's first character, or the component is
  \<open>..\<close>.
\<close>

definition last_dot :: "string \<Rightarrow> nat option" where
  "last_dot s =
     (case filter (\<lambda>i. s ! i = CHR ''.'') (rev [0..<length s]) of
        [] \<Rightarrow> None
      | i # _ \<Rightarrow> Some i)"

definition path_extname :: "string \<Rightarrow> string" where
  "path_extname p =
     (let s = last_component p in
      case last_dot s of
        None \<Rightarrow> []
      | Some startDot \<Rightarrow>
          if startDot = 0 \<or> s = ''..'' then [] else drop startDot s)"

text \<open>\<open>path.basename(p, ext)\<close>.\<close>

definition path_basename_ext :: "string \<Rightarrow> string \<Rightarrow> string" where
  "path_basename_ext p ext =
     (if ext \<noteq> [] \<and> length ext \<le> length p then
        (if ext = p then []
         else
           (let s = last_component p in
            if suffix ext s \<and> ext \<noteq> s then take (length s - length ext) s else s))
      else last_component p)"

section \<open>Path safety\<close>

text \<open>
  \<open>getSafePath\<close> of \<open>server.js\<close>; \<open>root\<close> is
  \<open>RESOLVED_UPLOAD_FOLDER_ROOT\<close>, and \<open>None\<close> is the function's \<open>null\<close>.
\<close>

definition getSafePath :: "string \<Rightarrow> string \<Rightarrow> string option" where
  "getSafePath root relativePathSuffix =
     (case decodeURIComponent relativePathSuffix of
        None \<Rightarrow> None
      | Some decodedSuffix \<Rightarrow>
          (let absoluteTargetPath = path_resolve root decodedSuffix in
           if \<not> prefix (root @ ''/'') absoluteTargetPath \<and> absoluteTargetPath \<noteq> root
           then None
           else Some absoluteTargetPath))"

text \<open>
  The components of a path, and what it means for a decoded suffix to leave
  the root: the components of the resolved path do not start with the
  components of the root.
\<close>

definition path_segments :: "string \<Rightarrow> string list" where
  "path_segments p = filter (\<lambda>s. s \<noteq> []) (split_sep p)"

definition escapes_root :: "string \<Rightarrow> string \<Rightarrow> bool" where
  "escapes_root root decodedSuffix =
     (\<not> prefix (path_segments root) (path_segments (path_resolve root decodedSuffix)))"


text \<open>
  A regular segment: a name that normalisation keeps as it is.
\<close>

definition regular :: "string \<Rightarrow> bool" where
  "regular s = (s \<noteq> [] \<and> s \<noteq> ''.'' \<and> s \<noteq> ''..'' \<and> CHR ''/'' \<notin> set s)"

section \<open>The file system\<close>

text \<open>
  The storage tree as a map from absolute paths to what is there; \<open>File\<close>
  carries the content. No symbolic links, and no I/O failure other than the
  ones written out below.
\<close>

datatype node = File string | Dir

type_synonym filesystem = "string \<Rightarrow> node option"

definition pathExists :: "filesystem \<Rightarrow> string \<Rightarrow> bool" where
  "pathExists fs p = (fs p \<noteq> None)"

definition isDirectory :: "filesystem \<Rightarrow> string \<Rightarrow> bool" where
  "isDirectory fs p = (fs p = Some Dir)"

definition isFile :: "filesystem \<Rightarrow> string \<Rightarrow> bool" where
  "isFile fs p = (case fs p of Some (File c) \<Rightarrow> True | _ \<Rightarrow> False)"

text \<open>\<open>within p q\<close>: \<open>q\<close> is \<open>p\<close> or lies below it.\<close>

definition within :: "string \<Rightarrow> string \<Rightarrow> bool" where
  "within p q = (q = p \<or> prefix (p @ ''/'') q)"

text \<open>\<open>fs.remove\<close> (fs-extra): the entry and everything below it.\<close>

definition remove_fs :: "filesystem \<Rightarrow> string \<Rightarrow> filesystem" where
  "remove_fs fs p = (\<lambda>q. if within p q then None else fs q)"

text \<open>The directories on the way to an absolute path, the path itself last.\<close>

definition dir_chain :: "string \<Rightarrow> string list" where
  "dir_chain p =
     map (\<lambda>k. CHR ''/'' # join_sep (take k (path_segments p)))
       [1..<Suc (length (path_segments p))]"

text \<open>
  \<open>fs.ensureDir\<close>: creates the directory and its missing ancestors; fails
  (\<open>None\<close>) when a regular file stands on the way.
\<close>

definition ensureDir :: "filesystem \<Rightarrow> string \<Rightarrow> filesystem option" where
  "ensureDir fs p =
     (if list_ex (isFile fs) (dir_chain p) then None
      else Some (\<lambda>q. if q \<in> set (dir_chain p) \<and> fs q = None then Some Dir else fs q))"

text \<open>
  Writing a whole file (\<open>fs.writeFile\<close>, and the write stream of the upload
  middleware): creates or overwrites; fails (\<open>None\<close>) on a directory. The
  parent directory exists wherever the server writes.
\<close>

definition writeFile :: "filesystem \<Rightarrow> string \<Rightarrow> string \<Rightarrow> filesystem option" where
  "writeFile fs p content =
     (case fs p of
        Some Dir \<Rightarrow> None
      | _ \<Rightarrow> Some (fs(p \<mapsto> File content)))"

text \<open>
  \<open>fs.move\<close> (fs-extra, no overwrite): fails (\<open>None\<close>) when the source is
  missing, the destination exists, or the destination is the source or lies
  below it.
\<close>

definition move :: "filesystem \<Rightarrow> string \<Rightarrow> string \<Rightarrow> filesystem option" where
  "move fs src dest =
     (if \<not> pathExists fs src \<or> pathExists fs dest \<or> within src dest then None
      else Some (\<lambda>q. if within dest q then fs (src @ drop (length dest) q)
                      else if within src q then None
                      else fs q))"

section \<open>Requests and replies\<close>

text \<open>
  A field of a request body is an optional string (\<open>None\<close>: absent). A reply
  is what the handler sends: a JSON body with its status and its \<open>error\<close> or
  \<open>message\<close> text, a plain text with its status, a file download (path and
  suggested name), a directory listing, the answer to a share request, or
  nothing at all when an exception leaves the handler.
\<close>

datatype reply =
    Json nat string
  | Send nat string
  | Download string string
  | Listing string
  | ShareCreated string
  | Unhandled

fun status :: "reply \<Rightarrow> nat option" where
  "status (Json n m) = Some n"
| "status (Send n m) = Some n"
| "status (Download p n) = Some 200"
| "status (Listing p) = Some 200"
| "status (ShareCreated i) = Some 200"
| "status Unhandled = None"

text \<open>\<open>x || ''\<close> for an optional string.\<close>

definition or_empty :: "string option \<Rightarrow> string" where
  "or_empty x = (case x of None \<Rightarrow> [] | Some s \<Rightarrow> s)"

text \<open>Decimal digits of a number, as a template literal prints it.\<close>

fun show_nat :: "nat \<Rightarrow> string" where
  "show_nat n =
     (if n < 10 then [''0123456789'' ! n]
      else show_nat (n div 10) @ [''0123456789'' ! (n mod 10)])"

declare show_nat.simps [simp del]

text \<open>
  The characters that the upload and mkdir handlers replace by an underscore:
  slash, backslash, question mark, percent, star, colon, bar, double quote,
  less-than and greater-than.
\<close>

definition illegal_chars :: "char list" where
  "illegal_chars =
     [CHR ''/'', CHR 0x5C, CHR ''?'', CHR ''%'', CHR ''*'', CHR '':'', CHR ''|'', CHR 0x22,
      CHR ''<'', CHR ''>'']"

definition sanitize :: "string \<Rightarrow> string" where
  "sanitize s = map (\<lambda>c. if c \<in> set illegal_chars then CHR ''_'' else c) s"

text \<open>The second replacement of the mkdir handler: a name made of dots only.\<close>

definition only_dots :: "string \<Rightarrow> bool" where
  "only_dots s = (s \<noteq> [] \<and> list_all (\<lambda>c. c = CHR ''.'') s)"

definition replace_dots :: "string \<Rightarrow> string" where
  "replace_dots s = (if only_dots s then ''_'' else s)"

text \<open>The apostrophe and the double quote of the message templates.\<close>

definition apos :: string where
  "apos = [CHR 0x27]"

definition dquote :: string where
  "dquote = [CHR 0x22]"

section \<open>Browsing and downloading\<close>

text \<open>
  \<open>GET /api/browse/:subpath\<close>. The listing itself (reading, sorting, the
  parent path) is left out of the reply; the checks before it are the
  handler's.
\<close>

definition api_browse :: "string \<Rightarrow> filesystem \<Rightarrow> string option \<Rightarrow> reply" where
  "api_browse root fs subpath_param =
     (let subpath = or_empty subpath_param in
      case getSafePath root subpath of
        None \<Rightarrow> Json 404 ''Path not found''
      | Some currentPath \<Rightarrow>
          if \<not> pathExists fs currentPath then Json 404 ''Path not found''
          else if \<not> isDirectory fs currentPath then Json 400 ''Path is not a directory''
          else Listing subpath)"

text \<open>
  \<open>res.download\<close> does not send a file whose base name starts with a dot
  (the library's default for dotfiles): it hands an error to the callback,
  which answers 500.
\<close>

definition dotfile :: "string \<Rightarrow> bool" where
  "dotfile name = (case name of c # d # _ \<Rightarrow> c = CHR ''.'' | _ \<Rightarrow> False)"

text \<open>\<open>GET /download/:filepath\<close>.\<close>

definition download :: "string \<Rightarrow> filesystem \<Rightarrow> string \<Rightarrow> reply" where
  "download root fs filepath =
     (case getSafePath root filepath of
        None \<Rightarrow> Send 400 ''Invalid file path.''
      | Some safeFullPath \<Rightarrow>
          if \<not> pathExists fs safeFullPath then Send 404 ''File not found.''
          else if \<not> isFile fs safeFullPath then Send 400 ''Path is not a file.''
          else
            (let filename = path_basename safeFullPath in
             if dotfile filename then Send 500 ''Error occurred during file download.''
             else Download safeFullPath filename))"

section \<open>Uploading\<close>

text \<open>
  The two callbacks of the disk storage, and the upload as the middleware
  runs it: destination, file name, write. An error of a callback or of the
  write reaches the route's error handler, which answers 400; the texts of
  the library's own errors are shortened. \<open>now\<close> is \<open>Date.now()\<close>; the
  uploaded file is its declared name and its content.
\<close>

definition upload_destination ::
  "string \<Rightarrow> filesystem \<Rightarrow> string option \<Rightarrow> string + (string \<times> filesystem)" where
  "upload_destination root fs subpath_param =
     (let subpath = or_empty subpath_param in
      case getSafePath root subpath of
        None \<Rightarrow> Inl ''Invalid upload directory specified (path safety check failed)''
      | Some targetDir \<Rightarrow>
          (case ensureDir fs targetDir of
             None \<Rightarrow> Inl ''Failed to create target directory''
           | Some fs' \<Rightarrow> Inr (targetDir, fs')))"

definition upload_filename ::
  "string \<Rightarrow> nat \<Rightarrow> filesystem \<Rightarrow> string option \<Rightarrow> string \<Rightarrow> string + string" where
  "upload_filename root now fs subpath_param originalname =
     (let safeName = sanitize originalname in
      case getSafePath root (or_empty subpath_param) of
        None \<Rightarrow> Inl ''Cannot determine safe parent directory for filename check''
      | Some parentDir \<Rightarrow>
          (let potentialPath = path_join parentDir safeName in
           if pathExists fs potentialPath then
             (let ext = path_extname safeName;
                  base = path_basename_ext safeName ext
              in Inr (base @ ''_'' @ show_nat now @ ext))
           else Inr safeName))"

definition api_upload ::
  "string \<Rightarrow> nat \<Rightarrow> filesystem \<Rightarrow> string option \<Rightarrow> (string \<times> string) option
     \<Rightarrow> reply \<times> filesystem" where
  "api_upload root now fs subpath_param file =
     (case file of
        None \<Rightarrow> (Json 400 ''File upload failed or was rejected.'', fs)
      | Some (originalname, content) \<Rightarrow>
          (case upload_destination root fs subpath_param of
             Inl e \<Rightarrow> (Json 400 (''Upload failed: '' @ e), fs)
           | Inr (destination, fs1) \<Rightarrow>
               (case upload_filename root now fs1 subpath_param originalname of
                  Inl e \<Rightarrow> (Json 400 (''Upload failed: '' @ e), fs1)
                | Inr filename \<Rightarrow>
                    (case writeFile fs1 (path_join destination filename) content of
                       None \<Rightarrow> (Json 400 ''Upload failed: write error'', fs1)
                     | Some fs2 \<Rightarrow>
                         (Json 200
                            (''File '' @ dquote @ filename @ dquote
                             @ '' uploaded successfully to /'' @ or_empty subpath_param),
                          fs2)))))"

section \<open>Directories: create and delete\<close>

text \<open>\<open>POST /api/mkdir\<close>.\<close>

definition safeDirName_of :: "string \<Rightarrow> string" where
  "safeDirName_of dir_name = replace_dots (sanitize dir_name)"

definition api_mkdir ::
  "string \<Rightarrow> filesystem \<Rightarrow> string option \<Rightarrow> string option \<Rightarrow> reply \<times> filesystem" where
  "api_mkdir root fs parent_path dir_name =
     (if or_empty dir_name = [] then (Json 400 ''Directory name is required.'', fs)
      else
        (let safeDirName = safeDirName_of (or_empty dir_name) in
         if safeDirName = [] \<or> safeDirName = ''.'' \<or> safeDirName = ''..'' then
           (Json 400 ''Invalid directory name provided.'', fs)
         else
           (case getSafePath root (or_empty parent_path) of
              None \<Rightarrow> (Json 400 ''Invalid or non-existent parent path.'', fs)
            | Some parentDir \<Rightarrow>
                if \<not> pathExists fs parentDir \<or> \<not> isDirectory fs parentDir then
                  (Json 400 ''Invalid or non-existent parent path.'', fs)
                else
                  (let newDirPath = path_join parentDir safeDirName in
                   if pathExists fs newDirPath then
                     (Json 409
                        (''Directory or file '' @ apos @ safeDirName @ apos
                         @ '' already exists.''),
                      fs)
                   else
                     (case ensureDir fs newDirPath of
                        None \<Rightarrow> (Json 500 ''Could not create directory'', fs)
                      | Some fs' \<Rightarrow>
                          (Json 200
                             (''Directory '' @ apos @ safeDirName @ apos
                              @ '' created successfully in /'' @ or_empty parent_path),
                           fs'))))))"

text \<open>\<open>POST /api/delete\<close>.\<close>

definition api_delete ::
  "string \<Rightarrow> filesystem \<Rightarrow> string option \<Rightarrow> reply \<times> filesystem" where
  "api_delete root fs path_field =
     (let itemPathSuffix = or_empty path_field in
      if itemPathSuffix = [] then
        (Json 400 (''Missing '' @ apos @ ''path'' @ apos @ '' in request''), fs)
      else
        (let itemFullPath = getSafePath root itemPathSuffix in
         if itemFullPath = Some root then
           (Json 403 ''Cannot delete the root storage directory'', fs)
         else
           (case itemFullPath of
              None \<Rightarrow> (Json 400 ''Invalid path specified.'', fs)
            | Some item \<Rightarrow>
                if \<not> pathExists fs item then (Json 404 ''Item not found.'', fs)
                else
                  (Json 200
                     (''Item '' @ apos @ path_basename item @ apos
                      @ '' deleted successfully''),
                   remove_fs fs item))))"

section \<open>Share links\<close>

text \<open>
  \<open>shareLinks\<close> is a plain object used as a dictionary: its entries in
  insertion order, one per key. Times are milliseconds since the epoch.
\<close>

record share_info =
  path :: string
  created_at :: nat

type_synonym registry = "(string \<times> share_info) list"

definition SHARE_DURATION_HOURS :: nat where
  "SHARE_DURATION_HOURS = 1"

text \<open>
  Reading \<open>shareLinks[id]\<close>: an entry of the object, or, for the names that
  every object inherits, a value that is not an entry (and is truthy), or
  \<open>undefined\<close>.
\<close>

datatype property = Undefined | Inherited | Own share_info

definition object_prototype_keys :: "string list" where
  "object_prototype_keys =
     [''constructor'', ''__defineGetter__'', ''__defineSetter__'', ''hasOwnProperty'',
      ''__lookupGetter__'', ''__lookupSetter__'', ''isPrototypeOf'',
      ''propertyIsEnumerable'', ''toString'', ''valueOf'', ''__proto__'',
      ''toLocaleString'']"

definition shareLinks_get :: "registry \<Rightarrow> string \<Rightarrow> property" where
  "shareLinks_get shareLinks shareId =
     (case map_of shareLinks shareId of
        Some link \<Rightarrow> Own link
      | None \<Rightarrow> if shareId \<in> set object_prototype_keys then Inherited else Undefined)"

text \<open>\<open>delete shareLinks[id]\<close>.\<close>

definition delete_link :: "string \<Rightarrow> registry \<Rightarrow> registry" where
  "delete_link shareId shareLinks = filter (\<lambda>kv. fst kv \<noteq> shareId) shareLinks"

text \<open>\<open>shareLinks[id] = link\<close>.\<close>

definition set_link :: "string \<Rightarrow> share_info \<Rightarrow> registry \<Rightarrow> registry" where
  "set_link shareId link shareLinks =
     (if map_of shareLinks shareId = None then shareLinks @ [(shareId, link)]
      else map (\<lambda>kv. if fst kv = shareId then (shareId, link) else kv) shareLinks)"

definition expiryTime :: "share_info \<Rightarrow> nat" where
  "expiryTime link = created_at link + SHARE_DURATION_HOURS * 60 * 60 * 1000"

text \<open>
  \<open>POST /api/share\<close>; \<open>shareId\<close> is the identifier that \<open>uuidv4()\<close> returns
  and \<open>now\<close> the time of the request.
\<close>

definition api_share ::
  "string \<Rightarrow> nat \<Rightarrow> string \<Rightarrow> filesystem \<Rightarrow> registry \<Rightarrow> string option
     \<Rightarrow> reply \<times> registry" where
  "api_share root now shareId fs shareLinks path_field =
     (let filePathSuffix = or_empty path_field in
      if filePathSuffix = [] then
        (Json 400 (''Missing '' @ apos @ ''path'' @ apos @ '' in request''), shareLinks)
      else
        (case getSafePath root filePathSuffix of
           None \<Rightarrow> (Json 400 ''Invalid file path.'', shareLinks)
         | Some fileFullPath \<Rightarrow>
             if \<not> pathExists fs fileFullPath then
               (Json 404 ''File not found for sharing.'', shareLinks)
             else if \<not> isFile fs fileFullPath then
               (Json 400 ''Sharing is only supported for files.'', shareLinks)
             else
               (ShareCreated shareId,
                set_link shareId \<lparr>path = filePathSuffix, created_at = now\<rparr> shareLinks)))"

text \<open>
  The clean-up loop of a failed lookup, over the keys the object had when the
  loop started. The flag tells whether the loop ran to its end; it stops with
  a TypeError if a key has no entry any more. The clock is read as \<open>now\<close>
  throughout the loop.
\<close>

fun sweep :: "nat \<Rightarrow> string list \<Rightarrow> registry \<Rightarrow> bool \<times> registry" where
  "sweep now [] shareLinks = (True, shareLinks)"
| "sweep now (k # ks) shareLinks =
     (case shareLinks_get shareLinks k of
        Own link \<Rightarrow>
          sweep now ks (if now > expiryTime link then delete_link k shareLinks else shareLinks)
      | _ \<Rightarrow> (False, shareLinks))"

text \<open>
  \<open>GET /share/:shareId\<close>, first part: the lookup and the expiry check.
  \<open>Inl\<close> is the reply when the handler has answered, \<open>Inr\<close> the link when
  it goes on to serve the file.
\<close>

definition share_lookup ::
  "nat \<Rightarrow> registry \<Rightarrow> string \<Rightarrow> (reply + share_info) \<times> registry" where
  "share_lookup now shareLinks shareId =
     (case shareLinks_get shareLinks shareId of
        Undefined \<Rightarrow>
          (case sweep now (map fst shareLinks) shareLinks of
             (True, shareLinks') \<Rightarrow>
               (Inl (Send 404 ''Share link is invalid or has expired.''), shareLinks')
           | (False, shareLinks') \<Rightarrow> (Inl Unhandled, shareLinks'))
      | Inherited \<Rightarrow> (Inl Unhandled, shareLinks)
      | Own shareInfo \<Rightarrow>
          if now > expiryTime shareInfo then
            (Inl (Send 410
                    (''Share link has expired (valid for '' @ show_nat SHARE_DURATION_HOURS
                     @ '' hour(s)).'')),
             delete_link shareId shareLinks)
          else (Inr shareInfo, shareLinks))"

text \<open>Second part: the link is valid, the file is served.\<close>

definition share_serve ::
  "string \<Rightarrow> filesystem \<Rightarrow> registry \<Rightarrow> string \<Rightarrow> share_info \<Rightarrow> reply \<times> registry" where
  "share_serve root fs shareLinks shareId shareInfo =
     (case getSafePath root (path shareInfo) of
        None \<Rightarrow> (Send 404 ''Shared file path is invalid.'', delete_link shareId shareLinks)
      | Some safeFullPath \<Rightarrow>
          if \<not> pathExists fs safeFullPath then
            (Send 404 ''The shared file is no longer available.'',
             delete_link shareId shareLinks)
          else if \<not> isFile fs safeFullPath then
            (Send 404 ''The shared item is not a file.'', delete_link shareId shareLinks)
          else
            (let filename = path_basename safeFullPath in
             if dotfile filename then (Send 500 ''Error downloading shared file.'', shareLinks)
             else (Download safeFullPath filename, shareLinks)))"

definition share_access ::
  "string \<Rightarrow> nat \<Rightarrow> filesystem \<Rightarrow> registry \<Rightarrow> string \<Rightarrow> reply \<times> registry" where
  "share_access root now fs shareLinks shareId =
     (case share_lookup now shareLinks shareId of
        (Inl r, shareLinks') \<Rightarrow> (r, shareLinks')
      | (Inr shareInfo, shareLinks') \<Rightarrow> share_serve root fs shareLinks' shareId shareInfo)"

section \<open>Moving and saving\<close>

text \<open>\<open>POST /api/move\<close>.\<close>

definition api_move ::
  "string \<Rightarrow> filesystem \<Rightarrow> string option \<Rightarrow> string option \<Rightarrow> reply \<times> filesystem" where
  "api_move root fs sourcePath destinationPath =
     (let sourceSuffix = or_empty sourcePath in
      if sourceSuffix = [] \<or> destinationPath = None then
        (Json 400 ''Missing source or destination path'', fs)
      else
        (let destinationSuffix = or_empty destinationPath in
         case getSafePath root sourceSuffix of
           None \<Rightarrow>
             (Json 400 ''Invalid source or destination path (safety check failed)'', fs)
         | Some sourceFullPath \<Rightarrow>
             (case getSafePath root destinationSuffix of
                None \<Rightarrow>
                  (Json 400 ''Invalid source or destination path (safety check failed)'', fs)
              | Some destinationDirFullPath \<Rightarrow>
                  if \<not> pathExists fs sourceFullPath then
                    (Json 404 (''Source item not found: '' @ sourceSuffix), fs)
                  else if \<not> pathExists fs destinationDirFullPath then
                    (Json 404 (''Destination directory not found: '' @ destinationSuffix), fs)
                  else if \<not> isDirectory fs destinationDirFullPath then
                    (Json 400 (''Destination is not a directory: '' @ destinationSuffix), fs)
                  else
                    (let itemName = path_basename sourceFullPath;
                         finalDestinationPath = path_join destinationDirFullPath itemName
                     in
                       if sourceFullPath = finalDestinationPath
                          \<or> sourceFullPath = destinationDirFullPath then
                         (Json 400 ''Cannot move item to the same location or into itself'',
                          fs)
                       else if isDirectory fs sourceFullPath
                               \<and> prefix (sourceFullPath @ ''/'') finalDestinationPath then
                         (Json 400
                            ''Cannot move a folder into itself or one of its subdirectories.'',
                          fs)
                       else if pathExists fs finalDestinationPath then
                         (Json 409
                            (''An item named '' @ apos @ itemName @ apos
                             @ '' already exists in the destination.''),
                          fs)
                       else
                         (case move fs sourceFullPath finalDestinationPath of
                            None \<Rightarrow> (Json 500 ''Failed to move item'', fs)
                          | Some fs' \<Rightarrow>
                              (Json 200
                                 (''Successfully moved '' @ apos @ itemName @ apos
                                  @ '' to /'' @ destinationSuffix),
                               fs'))))))"

text \<open>\<open>POST /api/save\<close>.\<close>

definition api_save ::
  "string \<Rightarrow> filesystem \<Rightarrow> string option \<Rightarrow> string option \<Rightarrow> reply \<times> filesystem" where
  "api_save root fs filePath content =
     (let fileSuffix = or_empty filePath in
      if fileSuffix = [] \<or> content = None then
        (Json 400 ''Missing file path or content'', fs)
      else
        (case getSafePath root fileSuffix of
           None \<Rightarrow> (Json 400 ''Invalid file path (safety check failed)'', fs)
         | Some fileFullPath \<Rightarrow>
             if \<not> pathExists fs fileFullPath then
               (Json 404 (''File not found: '' @ fileSuffix), fs)
             else if \<not> isFile fs fileFullPath then
               (Json 400 ''Target path is not a file.'', fs)
             else
               (case writeFile fs fileFullPath (or_empty content) of
                  None \<Rightarrow> (Json 500 ''Failed to save file'', fs)
                | Some fs' \<Rightarrow>
                    (Json 200
                       (''File '' @ apos @ path_basename fileFullPath @ apos
                        @ '' saved successfully.''),
                     fs'))))"

section \<open>A small installation\<close>

text \<open>
  A storage root with a few entries and a registry of two links, used where
  the properties below are run on concrete requests.
\<close>

definition store :: string where
  "store = ''/srv/store''"

definition store_fs :: filesystem where
  "store_fs =
     [''/srv'' \<mapsto> Dir,
      ''/srv/store'' \<mapsto> Dir,
      ''/srv/store/a.txt'' \<mapsto> File ''old'',
      ''/srv/store/dir'' \<mapsto> Dir,
      ''/srv/store/dir/sub'' \<mapsto> Dir,
      ''/srv/store/dir/sub/child'' \<mapsto> Dir]"

definition links :: registry where
  "links =
     [(''a1'', \<lparr>path = ''a.txt'', created_at = 1000\<rparr>),
      (''b2'', \<lparr>path = ''gone.txt'', created_at = 0\<rparr>)]"

section \<open>Properties of the path functions\<close>

lemma split_from_append_sep:
  "split_from cur (a @ CHR ''/'' # c) = split_from cur a @ split_from [] c"
  by (induction a arbitrary: cur) auto

lemma split_sep_append_sep:
  "split_sep (a @ CHR ''/'' # c) = split_sep a @ split_sep c"
  by (simp add: split_sep_def split_from_append_sep)

lemma path_segments_append_sep:
  "path_segments (a @ CHR ''/'' # c) = path_segments a @ path_segments c"
  by (simp add: path_segments_def split_sep_append_sep)

lemmas eval_defs =
  getSafePath_def decodeURIComponent_def hex_digit_def cont_byte_def path_resolve_def
  normalizeString_def split_sep_def isAbsolute_def path_segments_def
  char_of_def bit_Suc_0_iff

lemma getSafePath_inside:
  "getSafePath root sfx = Some p \<Longrightarrow> p = root \<or> prefix (root @ ''/'') p"
  by (auto simp: getSafePath_def Let_def split: option.splits if_splits)

text \<open>
  The handlers test the result with \<open>!path\<close>; a returned path is never the
  empty string, so that test is the test for \<open>null\<close>.
\<close>

lemma getSafePath_not_empty: "getSafePath root sfx \<noteq> Some []"
  by (auto simp: getSafePath_def path_resolve_def Let_def split: option.splits if_splits)

section \<open>The sandbox invariant\<close>

text \<open>
  C1. Whenever \<open>getSafePath\<close> returns a path, that path is the storage root
  or begins with the root followed by the separator; and a suffix whose
  decoded form resolves (lexically, \<open>..\<close> segments included) to a place whose
  components do not lie under the root's components is rejected.
\<close>

theorem getSafePath_sandbox:
  "(getSafePath root sfx = Some p \<longrightarrow> p = root \<or> prefix (root @ ''/'') p)
   \<and> (decodeURIComponent sfx = Some d \<and> escapes_root root d
        \<longrightarrow> getSafePath root sfx = None)"
proof (intro conjI impI)
  assume "getSafePath root sfx = Some p"
  then show "p = root \<or> prefix (root @ ''/'') p"
    by (rule getSafePath_inside)
next
  assume a: "decodeURIComponent sfx = Some d \<and> escapes_root root d"
  let ?t = "path_resolve root d"
  have esc: "\<not> prefix (path_segments root) (path_segments ?t)"
    using a by (simp add: escapes_root_def)
  have ne: "?t \<noteq> root"
    using esc by auto
  have "\<not> prefix (root @ ''/'') ?t"
  proof
    assume "prefix (root @ ''/'') ?t"
    then obtain c where c: "?t = (root @ ''/'') @ c"
      by (auto simp: prefix_def)
    then have "?t = root @ CHR ''/'' # c" by simp
    then have "path_segments ?t = path_segments root @ path_segments c"
      by (simp add: path_segments_append_sep)
    then show False using esc by simp
  qed
  with ne a show "getSafePath root sfx = None"
    by (simp add: getSafePath_def Let_def)
qed

theorem getSafePath_sandbox_witness:
  "getSafePath ''/srv/store'' ''docs/../a.txt'' = Some ''/srv/store/a.txt''
   \<and> prefix (''/srv/store'' @ ''/'') ''/srv/store/a.txt''
   \<and> decodeURIComponent ''%2e%2e/store2/x'' = Some ''../store2/x''
   \<and> escapes_root ''/srv/store'' ''../store2/x''
   \<and> getSafePath ''/srv/store'' ''%2e%2e/store2/x'' = None"
proof -
  have h1: "getSafePath ''/srv/store'' ''docs/../a.txt'' = Some ''/srv/store/a.txt''"
    by (simp add: eval_defs)
  have h2: "decodeURIComponent ''%2e%2e/store2/x'' = Some ''../store2/x''"
    by (simp add: eval_defs)
  have h3: "escapes_root ''/srv/store'' ''../store2/x''"
    by (simp add: escapes_root_def eval_defs)
  have n: "''/srv/store/a.txt'' \<noteq> ''/srv/store''"
    by simp
  note t1 = getSafePath_sandbox
    [of "''/srv/store''" "''docs/../a.txt''" "''/srv/store/a.txt''"]
  note t2 = getSafePath_sandbox
    [of "''/srv/store''" "''%2e%2e/store2/x''" _ "''../store2/x''"]
  from t1 h1 n have c1: "prefix (''/srv/store'' @ ''/'') ''/srv/store/a.txt''"
    by blast
  from t2 h2 h3 have c2: "getSafePath ''/srv/store'' ''%2e%2e/store2/x'' = None"
    by blast
  from h1 c1 h2 h3 c2 show ?thesis by blast
qed

section \<open>The share registry\<close>

lemma shareLinks_get_Own:
  "shareLinks_get reg k = Own l \<longleftrightarrow> map_of reg k = Some l"
  by (simp add: shareLinks_get_def split: option.splits)

lemma map_of_delete_link:
  "map_of (delete_link k reg) k' = (if k' = k then None else map_of reg k')"
  unfolding delete_link_def by (induction reg) auto

lemma delete_link_filter:
  "filter (\<lambda>kv. fst kv \<noteq> k) (delete_link k reg) = filter (\<lambda>kv. fst kv \<noteq> k) reg"
  by (simp add: delete_link_def)

lemma distinct_delete_link:
  "distinct (map fst reg) \<Longrightarrow> distinct (map fst (delete_link k reg))"
  by (simp add: delete_link_def distinct_map_filter)

lemma keys_delete_link:
  "fst ` set (delete_link k reg) = fst ` set reg - {k}"
  by (auto simp: delete_link_def)

text \<open>
  The loop over a list of distinct keys of the object runs to its end and
  removes, among those keys, exactly the expired entries.
\<close>

lemma sweep_filter:
  assumes "distinct (map fst reg)" and "distinct ks" and "set ks \<subseteq> fst ` set reg"
  shows "sweep now ks reg =
           (True, filter (\<lambda>kv. \<not> (fst kv \<in> set ks \<and> now > expiryTime (snd kv))) reg)"
  using assms
proof (induction ks arbitrary: reg)
  case Nil
  then show ?case by simp
next
  case (Cons k ks)
  from Cons.prems obtain l where l: "map_of reg k = Some l"
    by (metis list.set_intros(1) map_of_eq_None_iff not_Some_eq subsetD)
  have own: "shareLinks_get reg k = Own l"
    using l by (simp add: shareLinks_get_Own)
  have uniq: "\<And>kv. kv \<in> set reg \<Longrightarrow> fst kv = k \<Longrightarrow> snd kv = l"
    using Cons.prems(1) l by (metis map_of_is_SomeI option.inject prod.collapse)
  show ?case
  proof (cases "now > expiryTime l")
    case True
    let ?r = "delete_link k reg"
    have d: "distinct (map fst ?r)"
      using Cons.prems(1) by (rule distinct_delete_link)
    have s: "set ks \<subseteq> fst ` set ?r"
      using Cons.prems(2,3) by (auto simp: keys_delete_link)
    have "sweep now (k # ks) reg = sweep now ks ?r"
      using own True by simp
    also have "\<dots> =
        (True, filter (\<lambda>kv. \<not> (fst kv \<in> set ks \<and> now > expiryTime (snd kv))) ?r)"
      using Cons.IH [OF d _ s] Cons.prems(2) by simp
    also have "filter (\<lambda>kv. \<not> (fst kv \<in> set ks \<and> now > expiryTime (snd kv))) ?r =
        filter (\<lambda>kv. \<not> (fst kv \<in> set (k # ks) \<and> now > expiryTime (snd kv))) reg"
      unfolding delete_link_def filter_filter
      by (rule filter_cong) (use uniq True in auto)
    finally show ?thesis .
  next
    case False
    have "sweep now (k # ks) reg = sweep now ks reg"
      using own False by simp
    also have "\<dots> =
        (True, filter (\<lambda>kv. \<not> (fst kv \<in> set ks \<and> now > expiryTime (snd kv))) reg)"
      using Cons.IH [OF Cons.prems(1)] Cons.prems(2,3) by simp
    also have "filter (\<lambda>kv. \<not> (fst kv \<in> set ks \<and> now > expiryTime (snd kv))) reg =
        filter (\<lambda>kv. \<not> (fst kv \<in> set (k # ks) \<and> now > expiryTime (snd kv))) reg"
      by (rule filter_cong) (use uniq False in auto)
    finally show ?thesis .
  qed
qed

lemma sweep_all_keys:
  assumes "distinct (map fst reg)"
  shows "sweep now (map fst reg) reg = (True, filter (\<lambda>kv. \<not> now > expiryTime (snd kv)) reg)"
proof -
  have "sweep now (map fst reg) reg =
      (True, filter (\<lambda>kv. \<not> (fst kv \<in> set (map fst reg) \<and> now > expiryTime (snd kv))) reg)"
    using assms by (intro sweep_filter) auto
  also have "filter (\<lambda>kv. \<not> (fst kv \<in> set (map fst reg) \<and> now > expiryTime (snd kv))) reg =
      filter (\<lambda>kv. \<not> now > expiryTime (snd kv)) reg"
    by (rule filter_cong) auto
  finally show ?thesis .
qed

lemma share_access_hit_registry:
  assumes "shareLinks_get reg sid = Own info"
  shows "snd (share_access root now fs reg sid) = reg
         \<or> snd (share_access root now fs reg sid) = delete_link sid reg"
  using assms
  by (simp add: share_access_def share_lookup_def share_serve_def Let_def
      split: option.splits)

lemmas eval_share =
  share_access_def share_lookup_def share_serve_def shareLinks_get_def delete_link_def
  expiryTime_def SHARE_DURATION_HOURS_def object_prototype_keys_def pathExists_def
  isFile_def isDirectory_def path_basename_def last_component_def dotfile_def Let_def

lemmas eval_store = store_def store_fs_def links_def

lemmas eval_fs =
  pathExists_def isDirectory_def isFile_def within_def remove_fs_def dir_chain_def
  ensureDir_def writeFile_def move_def

lemmas eval_path =
  path_join_def path_normalize_def path_basename_def last_component_def path_extname_def
  path_basename_ext_def last_dot_def suffix_to_prefix Let_def

lemmas eval_misc =
  or_empty_def sanitize_def illegal_chars_def only_dots_def replace_dots_def
  safeDirName_of_def apos_def dquote_def

text \<open>
  C2, as stated, fails: a lookup of an identifier that has an entry does not
  sweep. Here \<open>b2\<close> has expired, \<open>a1\<close> is looked up and served, and \<open>b2\<close> is
  still in the registry afterwards.
\<close>

theorem share_access_hit_keeps_expired:
  "share_access store 3600500 store_fs links ''a1''
     = (Download ''/srv/store/a.txt'' ''a.txt'', links)
   \<and> map_of links ''b2'' = Some \<lparr>path = ''gone.txt'', created_at = 0\<rparr>
   \<and> 3600500 > expiryTime \<lparr>path = ''gone.txt'', created_at = 0\<rparr>"
  by (simp add: eval_store eval_share eval_defs)

text \<open>
  C2, amended. A lookup of an identifier for which \<open>shareLinks[id]\<close> is
  undefined answers 404 and leaves in the registry exactly the entries that
  have not expired: the sweep is global, and it runs on a miss.
\<close>

theorem share_access_miss_sweeps:
  assumes "distinct (map fst reg)" and "shareLinks_get reg sid = Undefined"
  shows "share_access root now fs reg sid =
           (Send 404 ''Share link is invalid or has expired.'',
            filter (\<lambda>kv. \<not> now > created_at (snd kv) + 3600000) reg)"
  using assms
  by (simp add: share_access_def share_lookup_def sweep_all_keys expiryTime_def
      SHARE_DURATION_HOURS_def)

theorem share_access_miss_sweeps_witness:
  "distinct (map fst links) \<and> shareLinks_get links ''zz'' = Undefined
   \<and> share_access store 3600500 store_fs links ''zz'' =
       (Send 404 ''Share link is invalid or has expired.'',
        [(''a1'', \<lparr>path = ''a.txt'', created_at = 1000\<rparr>)])"
proof -
  have d: "distinct (map fst links)"
    by (simp add: eval_store)
  have u: "shareLinks_get links ''zz'' = Undefined"
    by (simp add: eval_store eval_share)
  have f: "filter (\<lambda>kv. \<not> (3600500::nat) > created_at (snd kv) + 3600000) links
           = [(''a1'', \<lparr>path = ''a.txt'', created_at = 1000\<rparr>)]"
    by (simp add: eval_store)
  from share_access_miss_sweeps [OF d u, of store 3600500 store_fs] d u f
  show ?thesis by simp
qed

text \<open>
  C6. When the looked-up identifier has an entry: if the entry is older than
  the window of one hour (3600000 ms), the handler deletes it and answers 410
  with a text that states the window; otherwise the lookup hands the entry on
  as it is and leaves the registry as it is. Whatever the handler then does,
  every entry found in the registry afterwards is an entry that was there
  before, path and creation time unchanged: an access never extends a link's
  life.
\<close>

theorem share_access_expiry:
  assumes "shareLinks_get reg sid = Own info"
  shows "(if now > created_at info + 3600000 then
            share_access root now fs reg sid =
              (Send 410 ''Share link has expired (valid for 1 hour(s)).'',
               delete_link sid reg)
            \<and> map_of (delete_link sid reg) sid = None
          else share_lookup now reg sid = (Inr info, reg))
         \<and> (\<forall>k l. shareLinks_get (snd (share_access root now fs reg sid)) k = Own l
                \<longrightarrow> shareLinks_get reg k = Own l)"
proof (intro conjI allI impI)
  have one: "show_nat SHARE_DURATION_HOURS = ''1''"
    by (simp add: SHARE_DURATION_HOURS_def show_nat.simps)
  show "if now > created_at info + 3600000 then
          share_access root now fs reg sid =
            (Send 410 ''Share link has expired (valid for 1 hour(s)).'',
             delete_link sid reg)
          \<and> map_of (delete_link sid reg) sid = None
        else share_lookup now reg sid = (Inr info, reg)"
    using assms one
    by (simp add: share_access_def share_lookup_def expiryTime_def SHARE_DURATION_HOURS_def
        map_of_delete_link)
next
  fix k l
  assume a: "shareLinks_get (snd (share_access root now fs reg sid)) k = Own l"
  from share_access_hit_registry [OF assms, of root now fs]
  show "shareLinks_get reg k = Own l"
  proof
    assume "snd (share_access root now fs reg sid) = reg"
    with a show ?thesis by simp
  next
    assume "snd (share_access root now fs reg sid) = delete_link sid reg"
    with a show ?thesis
      by (simp add: shareLinks_get_Own map_of_delete_link split: if_splits)
  qed
qed

theorem share_access_expiry_witness:
  "shareLinks_get links ''b2'' = Own \<lparr>path = ''gone.txt'', created_at = 0\<rparr>
   \<and> share_access store 3600001 store_fs links ''b2'' =
       (Send 410 ''Share link has expired (valid for 1 hour(s)).'',
        [(''a1'', \<lparr>path = ''a.txt'', created_at = 1000\<rparr>)])
   \<and> shareLinks_get links ''a1'' = Own \<lparr>path = ''a.txt'', created_at = 1000\<rparr>
   \<and> share_lookup 3601000 links ''a1'' = (Inr \<lparr>path = ''a.txt'', created_at = 1000\<rparr>, links)"
proof -
  have b: "shareLinks_get links ''b2'' = Own \<lparr>path = ''gone.txt'', created_at = 0\<rparr>"
    by (simp add: eval_store eval_share)
  have a: "shareLinks_get links ''a1'' = Own \<lparr>path = ''a.txt'', created_at = 1000\<rparr>"
    by (simp add: eval_store eval_share)
  have d: "delete_link ''b2'' links = [(''a1'', \<lparr>path = ''a.txt'', created_at = 1000\<rparr>)]"
    by (simp add: eval_store eval_share)
  from share_access_expiry [OF b, of 3600001 store store_fs] d
  have 1: "share_access store 3600001 store_fs links ''b2'' =
       (Send 410 ''Share link has expired (valid for 1 hour(s)).'',
        [(''a1'', \<lparr>path = ''a.txt'', created_at = 1000\<rparr>)])"
    by simp
  from share_access_expiry [OF a, of 3601000 store store_fs]
  have 2: "share_lookup 3601000 links ''a1''
             = (Inr \<lparr>path = ''a.txt'', created_at = 1000\<rparr>, links)"
    by simp
  from b 1 a 2 show ?thesis by blast
qed

text \<open>
  C10. When the looked-up identifier has an entry, the registry after the
  access is the registry before it, or the registry before it without that
  one entry; every other identifier keeps its entry, in the same order. No
  sweep happens on a hit.
\<close>

theorem share_access_hit_frame:
  assumes "shareLinks_get reg sid = Own info"
  shows "(snd (share_access root now fs reg sid) = reg
          \<or> snd (share_access root now fs reg sid) = delete_link sid reg)
         \<and> filter (\<lambda>kv. fst kv \<noteq> sid) (snd (share_access root now fs reg sid))
             = filter (\<lambda>kv. fst kv \<noteq> sid) reg
         \<and> (\<forall>k. k \<noteq> sid
                \<longrightarrow> map_of (snd (share_access root now fs reg sid)) k = map_of reg k)"
proof -
  let ?r = "snd (share_access root now fs reg sid)"
  have c: "?r = reg \<or> ?r = delete_link sid reg"
    using assms by (rule share_access_hit_registry)
  then have f: "filter (\<lambda>kv. fst kv \<noteq> sid) ?r = filter (\<lambda>kv. fst kv \<noteq> sid) reg"
    by (auto simp: delete_link_filter)
  have m: "\<forall>k. k \<noteq> sid \<longrightarrow> map_of ?r k = map_of reg k"
    using c by (auto simp: map_of_delete_link)
  from c f m show ?thesis by blast
qed

theorem share_access_hit_frame_witness:
  "shareLinks_get links ''a1'' = Own \<lparr>path = ''a.txt'', created_at = 1000\<rparr>
   \<and> 3700000 > expiryTime \<lparr>path = ''gone.txt'', created_at = 0\<rparr>
   \<and> fst (share_access store 3700000 store_fs links ''a1'') =
       Send 410 ''Share link has expired (valid for 1 hour(s)).''
   \<and> map_of (snd (share_access store 3700000 store_fs links ''a1'')) ''b2''
       = Some \<lparr>path = ''gone.txt'', created_at = 0\<rparr>
   \<and> filter (\<lambda>kv. fst kv \<noteq> ''a1'') (snd (share_access store 3700000 store_fs links ''a1''))
       = [(''b2'', \<lparr>path = ''gone.txt'', created_at = 0\<rparr>)]"
proof -
  have a: "shareLinks_get links ''a1'' = Own \<lparr>path = ''a.txt'', created_at = 1000\<rparr>"
    by (simp add: eval_store eval_share)
  have e: "3700000 > expiryTime \<lparr>path = ''gone.txt'', created_at = 0\<rparr>"
    by (simp add: eval_share)
  have r: "fst (share_access store 3700000 store_fs links ''a1'') =
       Send 410 ''Share link has expired (valid for 1 hour(s)).''"
    by (simp add: eval_store eval_share show_nat.simps)
  have m: "map_of links ''b2'' = Some \<lparr>path = ''gone.txt'', created_at = 0\<rparr>"
    by (simp add: eval_store)
  have g: "filter (\<lambda>kv. fst kv \<noteq> ''a1'') links
             = [(''b2'', \<lparr>path = ''gone.txt'', created_at = 0\<rparr>)]"
    by (simp add: eval_store)
  note t = share_access_hit_frame [OF a, of store 3700000 store_fs]
  from t m have 1: "map_of (snd (share_access store 3700000 store_fs links ''a1'')) ''b2''
       = Some \<lparr>path = ''gone.txt'', created_at = 0\<rparr>"
    by simp
  from t g have 2:
    "filter (\<lambda>kv. fst kv \<noteq> ''a1'') (snd (share_access store 3700000 store_fs links ''a1''))
       = [(''b2'', \<lparr>path = ''gone.txt'', created_at = 0\<rparr>)]"
    by simp
  from a e r 1 2 show ?thesis by blast
qed

section \<open>Deleting\<close>

lemma not_within_below:
  assumes "prefix (root @ ''/'') item"
  shows "\<not> within item root"
proof
  assume "within item root"
  then have "length item \<le> length root"
    by (auto simp: within_def dest: prefix_length_le)
  moreover from assms have "length root + 1 \<le> length item"
    by (auto dest: prefix_length_le)
  ultimately show False by simp
qed

text \<open>
  C5, as stated, fails for the empty path: it resolves to the storage root,
  but the handler takes an empty path for a missing one and answers 400.
\<close>

theorem api_delete_empty_path:
  "getSafePath store [] = Some store
   \<and> api_delete store store_fs (Some []) =
       (Json 400 (''Missing '' @ apos @ ''path'' @ apos @ '' in request''), store_fs)"
  by (simp add: api_delete_def eval_store eval_defs eval_misc)

text \<open>
  C5, amended. A delete request whose path is missing or empty is answered
  400 (missing path) and changes nothing, although the empty path denotes the
  root. A delete request whose path is not empty and resolves to the storage
  root is refused with 403 and changes nothing, whatever the root contains.
  And no delete request at all removes or changes the root.
\<close>

theorem api_delete_root:
  "(or_empty pf = [] \<longrightarrow>
      api_delete root fs pf =
        (Json 400 (''Missing '' @ apos @ ''path'' @ apos @ '' in request''), fs))
   \<and> (p \<noteq> [] \<and> getSafePath root p = Some root
      \<longrightarrow> api_delete root fs (Some p) =
            (Json 403 ''Cannot delete the root storage directory'', fs))
   \<and> snd (api_delete root fs req) root = fs root"
proof (intro conjI impI)
  assume "or_empty pf = []"
  then show "api_delete root fs pf =
      (Json 400 (''Missing '' @ apos @ ''path'' @ apos @ '' in request''), fs)"
    by (simp add: api_delete_def)
next
  assume "p \<noteq> [] \<and> getSafePath root p = Some root"
  then show "api_delete root fs (Some p) =
      (Json 403 ''Cannot delete the root storage directory'', fs)"
    by (simp add: api_delete_def or_empty_def)
next
  show "snd (api_delete root fs req) root = fs root"
  proof (cases "getSafePath root (or_empty req)")
    case None
    then show ?thesis by (simp add: api_delete_def Let_def)
  next
    case (Some item)
    show ?thesis
    proof (cases "item = root")
      case True
      with Some show ?thesis by (simp add: api_delete_def Let_def)
    next
      case False
      with Some have "prefix (root @ ''/'') item"
        using getSafePath_inside by blast
      then have "\<not> within item root" by (rule not_within_below)
      with Some False show ?thesis
        by (simp add: api_delete_def Let_def remove_fs_def)
    qed
  qed
qed

theorem api_delete_root_witness:
  "or_empty None = [] \<and> or_empty (Some []) = []
   \<and> api_delete store store_fs None =
       (Json 400 (''Missing '' @ apos @ ''path'' @ apos @ '' in request''), store_fs)
   \<and> api_delete ''/data'' Map.empty (Some []) =
       (Json 400 (''Missing '' @ apos @ ''path'' @ apos @ '' in request''), Map.empty)
   \<and> ''dir/..'' \<noteq> [] \<and> getSafePath store ''dir/..'' = Some store
   \<and> api_delete store store_fs (Some ''dir/..'') =
       (Json 403 ''Cannot delete the root storage directory'', store_fs)
   \<and> fst (api_delete store store_fs (Some ''dir'')) =
       Json 200 (''Item '' @ apos @ ''dir'' @ apos @ '' deleted successfully'')
   \<and> snd (api_delete store store_fs (Some ''dir'')) ''/srv/store/dir/sub'' = None
   \<and> snd (api_delete store store_fs (Some ''dir'')) store = Some Dir"
proof -
  have o: "or_empty None = []" "or_empty (Some []) = []"
    by (simp_all add: or_empty_def)
  have n: "''dir/..'' \<noteq> []" by simp
  have g: "getSafePath store ''dir/..'' = Some store"
    by (simp add: eval_store eval_defs)
  have r: "store_fs store = Some Dir"
    by (simp add: eval_store)
  have d1: "fst (api_delete store store_fs (Some ''dir'')) =
       Json 200 (''Item '' @ apos @ ''dir'' @ apos @ '' deleted successfully'')"
    by (simp add: api_delete_def eval_store eval_defs eval_fs eval_path eval_misc)
  have d2: "snd (api_delete store store_fs (Some ''dir'')) ''/srv/store/dir/sub'' = None"
    by (simp add: api_delete_def eval_store eval_defs eval_fs eval_path eval_misc)
  note t0 = api_delete_root [where pf = None and root = store and fs = store_fs]
  note t00 = api_delete_root [where pf = "Some []" and root = "''/data''" and fs = Map.empty]
  note t1 = api_delete_root [where p = "''dir/..''" and root = store and fs = store_fs]
  note t2 = api_delete_root [where root = store and fs = store_fs and req = "Some ''dir''"]
  from t0 o have z0: "api_delete store store_fs None =
       (Json 400 (''Missing '' @ apos @ ''path'' @ apos @ '' in request''), store_fs)"
    by blast
  from t00 o have z1: "api_delete ''/data'' Map.empty (Some []) =
       (Json 400 (''Missing '' @ apos @ ''path'' @ apos @ '' in request''), Map.empty)"
    by blast
  from t1 n g have 1: "api_delete store store_fs (Some ''dir/..'') =
       (Json 403 ''Cannot delete the root storage directory'', store_fs)"
    by blast
  from t2 r have 2: "snd (api_delete store store_fs (Some ''dir'')) store = Some Dir"
    by simp
  from o z0 z1 n g 1 d1 d2 2 show ?thesis by blast
qed

section \<open>Saving\<close>



section \<open>Moving\<close>

text \<open>
  C7, as stated, fails when the destination directory does not exist: the
  source is a directory and the final path lies below it, yet the answer is
  404, not 400.
\<close>

theorem api_move_missing_destination:
  "getSafePath store ''dir'' = Some ''/srv/store/dir''
   \<and> getSafePath store ''dir/nowhere'' = Some ''/srv/store/dir/nowhere''
   \<and> isDirectory store_fs ''/srv/store/dir''
   \<and> prefix (''/srv/store/dir'' @ ''/'')
        (path_join ''/srv/store/dir/nowhere'' (path_basename ''/srv/store/dir''))
   \<and> api_move store store_fs (Some ''dir'') (Some ''dir/nowhere'') =
       (Json 404 ''Destination directory not found: dir/nowhere'', store_fs)"
  by (simp add: api_move_def eval_store eval_defs eval_fs eval_path eval_misc)

text \<open>
  C7, amended. For a move request whose source is a directory and whose
  final path (the destination directory joined with the source's base name)
  lies below the source: nothing changes in the file system; if the
  destination exists the answer is 400; if it does not, the answer is 404
  (for a source path that is not empty).
\<close>

theorem api_move_into_own_subtree:
  assumes "getSafePath root s = Some src" and "getSafePath root d = Some dst"
    and "isDirectory fs src"
    and "prefix (src @ ''/'') (path_join dst (path_basename src))"
  shows "snd (api_move root fs (Some s) (Some d)) = fs
         \<and> (pathExists fs dst \<longrightarrow> status (fst (api_move root fs (Some s) (Some d))) = Some 400)
         \<and> (\<not> pathExists fs dst \<and> s \<noteq> [] \<longrightarrow>
              fst (api_move root fs (Some s) (Some d)) =
                Json 404 (''Destination directory not found: '' @ d))"
proof -
  have e: "pathExists fs src"
    using assms(3) by (simp add: pathExists_def isDirectory_def)
  show ?thesis
    using assms e by (simp add: api_move_def Let_def or_empty_def)
qed

theorem api_move_into_own_subtree_witness:
  "getSafePath store ''dir/sub'' = Some ''/srv/store/dir/sub''
   \<and> getSafePath store ''dir/sub/child'' = Some ''/srv/store/dir/sub/child''
   \<and> isDirectory store_fs ''/srv/store/dir/sub''
   \<and> prefix (''/srv/store/dir/sub'' @ ''/'')
        (path_join ''/srv/store/dir/sub/child'' (path_basename ''/srv/store/dir/sub''))
   \<and> pathExists store_fs ''/srv/store/dir/sub/child''
   \<and> snd (api_move store store_fs (Some ''dir/sub'') (Some ''dir/sub/child'')) = store_fs
   \<and> status (fst (api_move store store_fs (Some ''dir/sub'') (Some ''dir/sub/child'')))
       = Some 400"
proof -
  have g1: "getSafePath store ''dir/sub'' = Some ''/srv/store/dir/sub''"
    and g2: "getSafePath store ''dir/sub/child'' = Some ''/srv/store/dir/sub/child''"
    by (simp_all add: eval_store eval_defs)
  have i: "isDirectory store_fs ''/srv/store/dir/sub''"
    and x: "pathExists store_fs ''/srv/store/dir/sub/child''"
    by (simp_all add: eval_store eval_fs)
  have p: "prefix (''/srv/store/dir/sub'' @ ''/'')
        (path_join ''/srv/store/dir/sub/child'' (path_basename ''/srv/store/dir/sub''))"
    by (simp add: eval_path eval_defs)
  note t = api_move_into_own_subtree [OF g1 g2 i p]
  from t x have 1:
    "snd (api_move store store_fs (Some ''dir/sub'') (Some ''dir/sub/child'')) = store_fs"
    and 2: "status (fst (api_move store store_fs (Some ''dir/sub'') (Some ''dir/sub/child'')))
       = Some 400"
    by blast+
  from g1 g2 i p x 1 2 show ?thesis by blast
qed

section \<open>Rejected paths and their status\<close>

text \<open>
  C4, as stated, fails for browsing: a subpath that the safety check rejects
  is answered 404, not 400.
\<close>

theorem api_browse_rejected_path:
  "getSafePath store ''../x'' = None
   \<and> api_browse store store_fs (Some ''../x'') = Json 404 ''Path not found''"
  by (simp add: api_browse_def eval_store eval_defs eval_misc)

text \<open>
  C4, amended. A client-supplied path that the safety check rejects is
  answered 400, and nothing changes, by download, upload, mkdir, delete,
  share, move (as source or as destination) and save; browse answers it 404,
  as it does a path that does not exist.
\<close>

theorem rejected_path_status:
  assumes "getSafePath root p = None"
  shows "api_browse root fs (Some p) = Json 404 ''Path not found''
         \<and> download root fs p = Send 400 ''Invalid file path.''
         \<and> status (fst (api_upload root now fs (Some p) upl)) = Some 400
         \<and> snd (api_upload root now fs (Some p) upl) = fs
         \<and> status (fst (api_mkdir root fs (Some p) dir_name)) = Some 400
         \<and> snd (api_mkdir root fs (Some p) dir_name) = fs
         \<and> status (fst (api_delete root fs (Some p))) = Some 400
         \<and> snd (api_delete root fs (Some p)) = fs
         \<and> status (fst (api_share root now sid fs reg (Some p))) = Some 400
         \<and> snd (api_share root now sid fs reg (Some p)) = reg
         \<and> status (fst (api_move root fs (Some p) dst)) = Some 400
         \<and> snd (api_move root fs (Some p) dst) = fs
         \<and> status (fst (api_move root fs src (Some p))) = Some 400
         \<and> snd (api_move root fs src (Some p)) = fs
         \<and> status (fst (api_save root fs (Some p) content)) = Some 400
         \<and> snd (api_save root fs (Some p) content) = fs"
proof -
  have o: "or_empty (Some p) = p" by (simp add: or_empty_def)
  have browse: "api_browse root fs (Some p) = Json 404 ''Path not found''"
    using assms by (simp add: api_browse_def o)
  have dl: "download root fs p = Send 400 ''Invalid file path.''"
    using assms by (simp add: download_def)
  have up: "status (fst (api_upload root now fs (Some p) upl)) = Some 400
            \<and> snd (api_upload root now fs (Some p) upl) = fs"
    using assms by (simp add: api_upload_def upload_destination_def o split: option.splits)
  have mk: "status (fst (api_mkdir root fs (Some p) dir_name)) = Some 400
            \<and> snd (api_mkdir root fs (Some p) dir_name) = fs"
    using assms by (simp add: api_mkdir_def Let_def o)
  have del: "status (fst (api_delete root fs (Some p))) = Some 400
             \<and> snd (api_delete root fs (Some p)) = fs"
    using assms by (simp add: api_delete_def Let_def o)
  have sh: "status (fst (api_share root now sid fs reg (Some p))) = Some 400
            \<and> snd (api_share root now sid fs reg (Some p)) = reg"
    using assms by (simp add: api_share_def Let_def o)
  have mv1: "status (fst (api_move root fs (Some p) dst)) = Some 400
             \<and> snd (api_move root fs (Some p) dst) = fs"
    using assms by (simp add: api_move_def Let_def o)
  have mv2: "status (fst (api_move root fs src (Some p))) = Some 400
             \<and> snd (api_move root fs src (Some p)) = fs"
    using assms by (simp add: api_move_def Let_def o split: option.splits)
  have sv: "status (fst (api_save root fs (Some p) content)) = Some 400
            \<and> snd (api_save root fs (Some p) content) = fs"
    using assms by (simp add: api_save_def Let_def o)
  from browse dl up mk del sh mv1 mv2 sv show ?thesis by blast
qed

theorem rejected_path_status_witness:
  "getSafePath store ''../x'' = None
   \<and> download store store_fs ''../x'' = Send 400 ''Invalid file path.''
   \<and> api_delete store store_fs (Some ''../x'') = (Json 400 ''Invalid path specified.'', store_fs)
   \<and> status (fst (api_save store store_fs (Some ''../x'') (Some ''new''))) = Some 400
   \<and> status (fst (api_move store store_fs (Some ''a.txt'') (Some ''../x''))) = Some 400
   \<and> status (fst (api_upload store 5 store_fs (Some ''../x'') (Some (''a.txt'', ''new''))))
       = Some 400"
proof -
  have g: "getSafePath store ''../x'' = None"
    by (simp add: eval_store eval_defs)
  have d: "api_delete store store_fs (Some ''../x'') =
      (Json 400 ''Invalid path specified.'', store_fs)"
    using g by (simp add: api_delete_def Let_def or_empty_def store_def)
  note t = rejected_path_status
    [OF g, where fs = store_fs and now = 5 and upl = "Some (''a.txt'', ''new'')"
       and src = "Some ''a.txt''" and content = "Some ''new''"]
  from t have 1: "download store store_fs ''../x'' = Send 400 ''Invalid file path.''"
    and 2: "status (fst (api_save store store_fs (Some ''../x'') (Some ''new''))) = Some 400"
    and 3: "status (fst (api_move store store_fs (Some ''a.txt'') (Some ''../x''))) = Some 400"
    and 4: "status (fst (api_upload store 5 store_fs (Some ''../x'') (Some (''a.txt'', ''new''))))
       = Some 400"
    by blast+
  from g 1 d 2 3 4 show ?thesis by blast
qed

section \<open>Resolved paths, segment by segment\<close>

lemma split_from_plain:
  "CHR ''/'' \<notin> set s \<Longrightarrow> split_from cur s = [rev cur @ s]"
  by (induction s arbitrary: cur) auto

lemma split_sep_plain: "CHR ''/'' \<notin> set s \<Longrightarrow> split_sep s = [s]"
  by (simp add: split_sep_def split_from_plain)

lemma split_sep_sep: "split_sep (CHR ''/'' # p) = [] # split_sep p"
  by (simp add: split_sep_def)

lemma join_sep_Cons2: "join_sep (s # t # ss) = s @ CHR ''/'' # join_sep (t # ss)"
  by simp

lemma split_sep_join:
  "ns \<noteq> [] \<Longrightarrow> list_all regular ns \<Longrightarrow> split_sep (join_sep ns) = ns"
proof (induction ns rule: join_sep.induct)
  case 1
  then show ?case by simp
next
  case (2 s)
  then show ?case by (simp add: regular_def split_sep_plain)
next
  case (3 s t ss)
  then show ?case
    by (simp only: join_sep_Cons2 split_sep_append_sep)
       (simp add: regular_def split_sep_plain)
qed

lemma split_from_slashfree:
  "CHR ''/'' \<notin> set cur \<Longrightarrow> list_all (\<lambda>s. CHR ''/'' \<notin> set s) (split_from cur p)"
  by (induction p arbitrary: cur) auto

lemma split_sep_slashfree: "list_all (\<lambda>s. CHR ''/'' \<notin> set s) (split_sep p)"
  by (simp add: split_sep_def split_from_slashfree)

lemma normalize_segs_regular:
  "list_all regular acc \<Longrightarrow> list_all (\<lambda>s. CHR ''/'' \<notin> set s) xs
     \<Longrightarrow> list_all regular (normalize_segs False acc xs)"
proof (induction xs arbitrary: acc)
  case Nil
  then show ?case by simp
next
  case (Cons x xs)
  then show ?case
    by (cases acc) (auto simp: regular_def)
qed

lemma normalize_segs_append:
  "list_all regular xs
     \<Longrightarrow> normalize_segs False acc (xs @ ys) = normalize_segs False (rev xs @ acc) ys"
  by (induction xs arbitrary: acc) (auto simp: regular_def)

lemma normalize_segs_empty:
  "normalize_segs allowAboveRoot acc ([] # xs) = normalize_segs allowAboveRoot acc xs"
  by simp

lemma normalize_segs_split_join:
  "list_all regular ns
     \<Longrightarrow> normalize_segs False acc (split_sep (join_sep ns) @ ys)
         = normalize_segs False (rev ns @ acc) ys"
proof (cases "ns = []")
  case True
  then show ?thesis by (simp add: split_sep_def)
next
  case False
  assume "list_all regular ns"
  with False show ?thesis
    by (simp add: split_sep_join normalize_segs_append)
qed

lemma join_sep_snoc:
  "join_sep (ns @ [x]) = (if ns = [] then x else join_sep ns @ CHR ''/'' # x)"
  by (induction ns rule: join_sep.induct) auto

lemma last_join_sep:
  "list_all regular ns \<Longrightarrow> ns \<noteq> [] \<Longrightarrow> last (join_sep ns) \<noteq> CHR ''/''"
proof (induction ns rule: rev_induct)
  case Nil
  then show ?case by simp
next
  case (snoc x xs)
  then have "x \<noteq> []" and "CHR ''/'' \<notin> set x"
    by (simp_all add: regular_def)
  then have "last x \<noteq> CHR ''/''"
    using last_in_set by metis
  with \<open>x \<noteq> []\<close> show ?case
    by (simp add: join_sep_snoc)
qed

text \<open>What \<open>getSafePath\<close> returns is a slash followed by regular segments.\<close>

lemma getSafePath_segments:
  assumes "getSafePath root sfx = Some dest"
  obtains ns where "list_all regular ns" and "dest = CHR ''/'' # join_sep ns"
proof -
  from assms obtain d where "dest = path_resolve root d"
    by (auto simp: getSafePath_def Let_def split: option.splits if_splits)
  then have "dest = CHR ''/'' # join_sep (normalize_segs False []
       (split_sep (if isAbsolute d then d else root @ ''/'' @ d)))"
    by (simp add: path_resolve_def normalizeString_def)
  moreover have "list_all regular (normalize_segs False []
       (split_sep (if isAbsolute d then d else root @ ''/'' @ d)))"
    by (rule normalize_segs_regular) (simp_all add: split_sep_slashfree)
  ultimately show ?thesis using that by blast
qed

lemma path_normalize_absolute:
  assumes "isAbsolute p" and "last p \<noteq> CHR ''/''" and "normalizeString False p = n"
  shows "path_normalize p = CHR ''/'' # n"
proof -
  from assms(1) have "p \<noteq> []" by (auto simp: isAbsolute_def)
  with assms show ?thesis
    by (simp add: path_normalize_def Let_def)
qed

text \<open>Joining a resolved directory and a name without a slash.\<close>

lemma path_join_resolved:
  assumes "list_all regular ns" and "CHR ''/'' \<notin> set name"
  shows "path_join (CHR ''/'' # join_sep ns) name
           = CHR ''/'' # join_sep (normalize_segs False (rev ns) [name])"
proof (cases "name = []")
  case True
  have n: "normalizeString False (CHR ''/'' # join_sep ns) = join_sep ns"
    using normalize_segs_split_join [OF assms(1), of "[]" "[]"]
    by (simp add: normalizeString_def split_sep_sep)
  have "path_normalize (CHR ''/'' # join_sep ns) = CHR ''/'' # join_sep ns"
  proof (cases "join_sep ns = []")
    case True
    with n have "normalizeString False ''/'' = []" by simp
    with True show ?thesis by (simp add: path_normalize_def isAbsolute_def)
  next
    case False
    then have "ns \<noteq> []" by auto
    then have "last (join_sep ns) \<noteq> CHR ''/''"
      using assms(1) by (simp add: last_join_sep)
    with False show ?thesis
      by (simp add: path_normalize_def n isAbsolute_def)
  qed
  with True show ?thesis by (simp add: path_join_def)
next
  case False
  let ?p = "(CHR ''/'' # join_sep ns) @ ''/'' @ name"
  let ?r = "normalize_segs False (rev ns) [name]"
  have s: "split_sep ?p = [] # split_sep (join_sep ns) @ [name]"
    using assms(2) by (simp add: split_sep_sep split_sep_append_sep split_sep_plain)
  have k: "normalize_segs False [] (split_sep (join_sep ns) @ [name]) = ?r"
    using normalize_segs_split_join [OF assms(1), of "[]" "[name]"]
    by (simp only: append_Nil2)
  have n: "normalizeString False ?p = join_sep ?r"
    by (simp only: normalizeString_def s normalize_segs_empty k)
  have "last name \<in> set name"
    using False by simp
  with assms(2) have "last name \<noteq> CHR ''/''"
    by metis
  with False have l: "last ?p \<noteq> CHR ''/''"
    by simp
  have a: "isAbsolute ?p" by (simp add: isAbsolute_def)
  have "path_normalize ?p = CHR ''/'' # join_sep ?r"
    by (rule path_normalize_absolute [OF a l n])
  with False show ?thesis
    by (simp add: path_join_def del: normalize_segs.simps)
qed

lemma normalize_segs_name:
  assumes "list_all regular ns"
  shows "normalize_segs False (rev ns) [name] =
           (if name = [] \<or> name = ''.'' then ns
            else if name = ''..'' then butlast ns
            else ns @ [name])"
proof (cases ns rule: rev_cases)
  case Nil
  then show ?thesis by simp
next
  case (snoc xs x)
  with assms have "x \<noteq> ''..''" by (simp add: regular_def)
  with snoc show ?thesis by simp
qed

lemma length_join_sep_append: "length (join_sep xs) \<le> length (join_sep (xs @ ys))"
proof (induction ys rule: rev_induct)
  case Nil
  then show ?case by simp
next
  case (snoc y ys)
  have "length (join_sep (xs @ ys)) \<le> length (join_sep ((xs @ ys) @ [y]))"
    by (simp only: join_sep_snoc) simp
  with snoc show ?case by simp
qed

lemma length_join_sep_take: "length (join_sep (take k ns)) \<le> length (join_sep ns)"
  using length_join_sep_append [of "take k ns" "drop k ns"] by simp

lemma length_join_sep_butlast: "length (join_sep (butlast ns)) \<le> length (join_sep ns)"
  using length_join_sep_take [of "length ns - 1" ns] by (simp add: butlast_conv_take)

lemma length_join_sep_snoc:
  "x \<noteq> [] \<Longrightarrow> length (join_sep ns) < length (join_sep (ns @ [x]))"
  by (simp add: join_sep_snoc)

lemma path_segments_resolved:
  assumes "list_all regular ns"
  shows "path_segments (CHR ''/'' # join_sep ns) = ns"
proof (cases "ns = []")
  case True
  then show ?thesis by (simp add: path_segments_def split_sep_def)
next
  case False
  have "filter (\<lambda>s. s \<noteq> []) ns = ns"
    using assms by (simp add: list_all_iff regular_def)
  with False assms show ?thesis
    by (simp add: path_segments_def split_sep_sep split_sep_join)
qed

section \<open>Uploading onto an existing name\<close>

lemma sanitize_legal: "c \<in> set (sanitize s) \<Longrightarrow> c \<notin> set illegal_chars"
  by (auto simp: sanitize_def illegal_chars_def)

lemma sanitize_slashfree: "CHR ''/'' \<notin> set (sanitize s)"
proof
  assume "CHR ''/'' \<in> set (sanitize s)"
  then have "CHR ''/'' \<notin> set illegal_chars" by (rule sanitize_legal)
  then show False by (simp add: illegal_chars_def)
qed

lemma last_component_plain: "CHR ''/'' \<notin> set s \<Longrightarrow> last_component s = s"
  by (cases "s = []") (simp_all add: last_component_def split_sep_plain)

lemma last_dot_bound: "last_dot s = Some k \<Longrightarrow> k < length s"
proof -
  assume a: "last_dot s = Some k"
  then obtain ks where "filter (\<lambda>i. s ! i = CHR ''.'') (rev [0..<length s]) = k # ks"
    by (auto simp: last_dot_def split: list.splits)
  then have "k \<in> set (filter (\<lambda>i. s ! i = CHR ''.'') (rev [0..<length s]))"
    by simp
  then show ?thesis by simp
qed

text \<open>The base name and the extension of a name without a slash make up the name.\<close>

lemma basename_extname:
  assumes "CHR ''/'' \<notin> set s"
  shows "path_basename_ext s (path_extname s) @ path_extname s = s"
proof (cases "path_extname s = []")
  case True
  then show ?thesis
    using assms by (simp add: path_basename_ext_def last_component_plain)
next
  case False
  then obtain k where k: "last_dot s = Some k" and e: "path_extname s = drop k s"
    and k0: "k \<noteq> 0"
    using assms
    by (auto simp: path_extname_def last_component_plain Let_def
        split: option.splits if_splits)
  from k have kl: "k < length s" by (rule last_dot_bound)
  have ne: "drop k s \<noteq> s"
  proof
    assume "drop k s = s"
    then have "length (drop k s) = length s" by simp
    with kl k0 show False by simp
  qed
  have su: "suffix (drop k s) s" by (rule suffix_drop)
  have "path_basename_ext s (drop k s) = take k s"
    using False e ne su kl assms
    by (simp add: path_basename_ext_def last_component_plain Let_def)
  with e show ?thesis by simp
qed

lemma digit_not_sep: "k < 10 \<Longrightarrow> ''0123456789'' ! k \<noteq> CHR ''/''"
proof -
  assume "k < 10"
  then have "k \<in> {0, 1, 2, 3, 4, 5, 6, 7, 8, 9}" by auto
  then show ?thesis by auto
qed

lemma show_nat_slashfree: "CHR ''/'' \<notin> set (show_nat n)"
proof (induction n rule: show_nat.induct)
  case (1 n)
  show ?case
  proof (cases "n < 10")
    case True
    then show ?thesis
      using digit_not_sep [of n] by (simp add: show_nat.simps)
  next
    case False
    have "n mod 10 < 10" by simp
    then have "''0123456789'' ! (n mod 10) \<noteq> CHR ''/''" by (rule digit_not_sep)
    with False 1 show ?thesis
      by (subst show_nat.simps) simp
  qed
qed

text \<open>The renamed form is a regular name, longer than the name it comes from.\<close>

lemma renamed_regular:
  assumes "CHR ''/'' \<notin> set s"
    and "n = path_basename_ext s (path_extname s) @ ''_'' @ show_nat now @ path_extname s"
  shows "regular n" and "length s < length n"
proof -
  let ?b = "path_basename_ext s (path_extname s)" and ?e = "path_extname s"
  have be: "?b @ ?e = s" using assms(1) by (rule basename_extname)
  then have "set ?b \<union> set ?e = set s"
    by (metis set_append)
  with assms(1) have sf: "CHR ''/'' \<notin> set ?b" "CHR ''/'' \<notin> set ?e"
    by auto
  have u: "CHR ''_'' \<in> set n"
    by (simp add: assms(2))
  have "n \<noteq> []" "n \<noteq> ''.''" "n \<noteq> ''..''"
    using u by auto
  moreover have "CHR ''/'' \<notin> set n"
    using sf show_nat_slashfree [of now] by (simp add: assms(2))
  ultimately show "regular n" by (simp add: regular_def)
  have "length n = length (?b @ ?e) + 1 + length (show_nat now)"
    by (simp add: assms(2))
  then show "length s < length n"
    by (simp add: be)
qed

lemma ensureDir_keeps:
  "ensureDir fs p = Some fs1 \<Longrightarrow> fs q \<noteq> None \<Longrightarrow> fs1 q = fs q"
  by (auto simp: ensureDir_def split: if_splits)

lemma ensureDir_elsewhere:
  "ensureDir fs p = Some fs1 \<Longrightarrow> q \<notin> set (dir_chain p) \<Longrightarrow> fs1 q = fs q"
  by (auto simp: ensureDir_def split: if_splits)

lemma dir_chain_length:
  assumes "list_all regular ns" and "q \<in> set (dir_chain (CHR ''/'' # join_sep ns))"
  shows "length q \<le> Suc (length (join_sep ns))"
proof -
  from assms obtain k where "q = CHR ''/'' # join_sep (take k ns)"
    by (auto simp: dir_chain_def path_segments_resolved)
  then show ?thesis by (simp add: length_join_sep_take)
qed

text \<open>
  The renamed path lies in the destination directory, differs from the path
  of the existing entry, and is none of the directories on the way to the
  destination.
\<close>

lemma renamed_path:
  assumes "list_all regular ns" and "CHR ''/'' \<notin> set s"
    and "regular n" and "length s < length n"
  shows "path_join (CHR ''/'' # join_sep ns) n = CHR ''/'' # join_sep (ns @ [n])"
    and "path_join (CHR ''/'' # join_sep ns) n \<noteq> path_join (CHR ''/'' # join_sep ns) s"
    and "path_join (CHR ''/'' # join_sep ns) n \<notin> set (dir_chain (CHR ''/'' # join_sep ns))"
proof -
  from assms(3) have n: "n \<noteq> []" "n \<noteq> ''.''" "n \<noteq> ''..''" "CHR ''/'' \<notin> set n"
    by (simp_all add: regular_def)
  show 1: "path_join (CHR ''/'' # join_sep ns) n = CHR ''/'' # join_sep (ns @ [n])"
    using n by (simp only: path_join_resolved [OF assms(1) n(4)]
        normalize_segs_name [OF assms(1)] if_False simp_thms)
  have big: "length (join_sep ns) < length (join_sep (ns @ [n]))"
    using n(1) by (rule length_join_sep_snoc)
  define r where "r = normalize_segs False (rev ns) [s]"
  have ps: "path_join (CHR ''/'' # join_sep ns) s = CHR ''/'' # join_sep r"
    unfolding r_def by (rule path_join_resolved [OF assms(1,2)])
  have "r = ns \<or> r = butlast ns \<or> r = ns @ [s]"
    unfolding r_def by (simp only: normalize_segs_name [OF assms(1)] split: if_splits) metis
  then consider "r = ns" | "r = butlast ns" | "r = ns @ [s]"
    by blast
  then have "length (join_sep r) < length (join_sep (ns @ [n]))"
  proof cases
    case 1
    with big show ?thesis by simp
  next
    case 2
    with big length_join_sep_butlast [of ns] show ?thesis by simp
  next
    case 3
    with assms(4) show ?thesis by (simp add: join_sep_snoc)
  qed
  then show "path_join (CHR ''/'' # join_sep ns) n \<noteq> path_join (CHR ''/'' # join_sep ns) s"
    unfolding 1 ps by auto
  show "path_join (CHR ''/'' # join_sep ns) n \<notin> set (dir_chain (CHR ''/'' # join_sep ns))"
  proof
    assume "path_join (CHR ''/'' # join_sep ns) n \<in> set (dir_chain (CHR ''/'' # join_sep ns))"
    then have "length (path_join (CHR ''/'' # join_sep ns) n) \<le> Suc (length (join_sep ns))"
      using assms(1) dir_chain_length by blast
    with big show False unfolding 1 by simp
  qed
qed

text \<open>
  C9, as stated, fails when a directory already stands at the renamed path:
  the write fails, the upload is answered 400, and the new file is not
  stored.
\<close>

theorem api_upload_renamed_path_taken:
  "pathExists (store_fs(''/srv/store/a_1700000000123.txt'' \<mapsto> Dir))
     (path_join store (sanitize ''a.txt''))
   \<and> fst (api_upload store 1700000000123
            (store_fs(''/srv/store/a_1700000000123.txt'' \<mapsto> Dir)) None
            (Some (''a.txt'', ''new'')))
       = Json 400 ''Upload failed: write error''
   \<and> snd (api_upload store 1700000000123
            (store_fs(''/srv/store/a_1700000000123.txt'' \<mapsto> Dir)) None
            (Some (''a.txt'', ''new''))) ''/srv/store/a_1700000000123.txt''
       = Some Dir"
  by (simp add: api_upload_def upload_destination_def upload_filename_def show_nat.simps
      eval_store eval_defs eval_fs eval_path eval_misc)

text \<open>
  C9, amended. For an upload into a destination that resolves inside the
  root and can be ensured, whose sanitized name already exists there, and
  with no directory at the renamed path: the file is stored under the base
  name, an underscore, the time in milliseconds and the extension of the
  sanitized name; afterwards the new file exists with the uploaded content,
  at a path different from the existing entry's, and the existing entry is
  as it was.
\<close>

theorem api_upload_collision:
  assumes "getSafePath root (or_empty sub) = Some dest"
    and "ensureDir fs dest \<noteq> None"
    and "pathExists fs (path_join dest (sanitize name))"
    and "newName = path_basename_ext (sanitize name) (path_extname (sanitize name))
                   @ ''_'' @ show_nat now @ path_extname (sanitize name)"
    and "fs (path_join dest newName) \<noteq> Some Dir"
  shows "fst (api_upload root now fs sub (Some (name, content))) =
           Json 200 (''File '' @ dquote @ newName @ dquote
                     @ '' uploaded successfully to /'' @ or_empty sub)
         \<and> snd (api_upload root now fs sub (Some (name, content))) (path_join dest newName)
             = Some (File content)
         \<and> snd (api_upload root now fs sub (Some (name, content)))
               (path_join dest (sanitize name))
             = fs (path_join dest (sanitize name))
         \<and> path_join dest newName \<noteq> path_join dest (sanitize name)
         \<and> path_basename_ext (sanitize name) (path_extname (sanitize name))
             @ path_extname (sanitize name) = sanitize name"
proof -
  let ?s = "sanitize name"
  obtain ns where ns: "list_all regular ns" and dest: "dest = CHR ''/'' # join_sep ns"
    using assms(1) by (rule getSafePath_segments)
  have sf: "CHR ''/'' \<notin> set ?s" by (rule sanitize_slashfree)
  have reg: "regular newName" and len: "length ?s < length newName"
    using renamed_regular [OF sf assms(4)] by simp_all
  have ne: "path_join dest newName \<noteq> path_join dest ?s"
    and nc: "path_join dest newName \<notin> set (dir_chain dest)"
    unfolding dest using renamed_path [OF ns sf reg len] by simp_all
  from assms(2) obtain fs1 where fs1: "ensureDir fs dest = Some fs1" by auto
  have old: "fs (path_join dest ?s) \<noteq> None"
    using assms(3) by (simp add: pathExists_def)
  have k1: "fs1 (path_join dest ?s) = fs (path_join dest ?s)"
    using fs1 old by (rule ensureDir_keeps)
  have k2: "fs1 (path_join dest newName) = fs (path_join dest newName)"
    using fs1 nc by (rule ensureDir_elsewhere)
  have d: "upload_destination root fs sub = Inr (dest, fs1)"
    using assms(1) fs1 by (simp add: upload_destination_def)
  have f: "upload_filename root now fs1 sub name = Inr newName"
    using assms(1) old k1 by (simp add: upload_filename_def Let_def pathExists_def assms(4))
  have w: "writeFile fs1 (path_join dest newName) content
             = Some (fs1(path_join dest newName \<mapsto> File content))"
    using assms(5) k2 by (simp add: writeFile_def split: option.splits node.splits)
  have r: "api_upload root now fs sub (Some (name, content)) =
      (Json 200 (''File '' @ dquote @ newName @ dquote
                 @ '' uploaded successfully to /'' @ or_empty sub),
       fs1(path_join dest newName \<mapsto> File content))"
    by (simp add: api_upload_def d f w)
  have be: "path_basename_ext ?s (path_extname ?s) @ path_extname ?s = ?s"
    using sf by (rule basename_extname)
  from r ne k1 be show ?thesis by simp
qed

theorem api_upload_collision_witness:
  "getSafePath store (or_empty None) = Some ''/srv/store''
   \<and> ensureDir store_fs ''/srv/store'' \<noteq> None
   \<and> pathExists store_fs (path_join ''/srv/store'' (sanitize ''a.txt''))
   \<and> ''a_1700000000123.txt'' =
       path_basename_ext (sanitize ''a.txt'') (path_extname (sanitize ''a.txt''))
       @ ''_'' @ show_nat 1700000000123 @ path_extname (sanitize ''a.txt'')
   \<and> store_fs (path_join ''/srv/store'' ''a_1700000000123.txt'') \<noteq> Some Dir
   \<and> fst (api_upload store 1700000000123 store_fs None (Some (''a.txt'', ''new''))) =
       Json 200 (''File '' @ dquote @ ''a_1700000000123.txt'' @ dquote
                 @ '' uploaded successfully to /'')
   \<and> snd (api_upload store 1700000000123 store_fs None (Some (''a.txt'', ''new'')))
         ''/srv/store/a_1700000000123.txt''
       = Some (File ''new'')
   \<and> snd (api_upload store 1700000000123 store_fs None (Some (''a.txt'', ''new'')))
         ''/srv/store/a.txt''
       = Some (File ''old'')"
proof -
  have g: "getSafePath store (or_empty None) = Some ''/srv/store''"
    by (simp add: eval_store eval_defs eval_misc)
  have e: "ensureDir store_fs ''/srv/store'' \<noteq> None"
    by (simp add: eval_store eval_fs eval_defs)
  have s: "sanitize ''a.txt'' = ''a.txt''"
    by (simp add: eval_misc)
  have x: "pathExists store_fs (path_join ''/srv/store'' (sanitize ''a.txt''))"
    by (simp add: s) (simp add: eval_store eval_fs eval_path eval_defs)
  have n: "''a_1700000000123.txt'' =
       path_basename_ext (sanitize ''a.txt'') (path_extname (sanitize ''a.txt''))
       @ ''_'' @ show_nat 1700000000123 @ path_extname (sanitize ''a.txt'')"
    by (simp add: s) (simp add: eval_path eval_defs show_nat.simps)
  have p1: "path_join ''/srv/store'' ''a_1700000000123.txt'' = ''/srv/store/a_1700000000123.txt''"
    and p2: "path_join ''/srv/store'' ''a.txt'' = ''/srv/store/a.txt''"
    by (simp_all add: eval_path eval_defs)
  have f: "store_fs (path_join ''/srv/store'' ''a_1700000000123.txt'') \<noteq> Some Dir"
    by (simp add: p1) (simp add: eval_store)
  have o: "store_fs ''/srv/store/a.txt'' = Some (File ''old'')"
    by (simp add: eval_store)
  note t = api_upload_collision [OF g e x n f, of "''new''"]
  from t have 1:
    "fst (api_upload store 1700000000123 store_fs None (Some (''a.txt'', ''new''))) =
       Json 200 (''File '' @ dquote @ ''a_1700000000123.txt'' @ dquote
                 @ '' uploaded successfully to /'')"
    by (simp add: or_empty_def)
  from t p1 have 2:
    "snd (api_upload store 1700000000123 store_fs None (Some (''a.txt'', ''new'')))
         ''/srv/store/a_1700000000123.txt''
       = Some (File ''new'')"
    by simp
  from t s p2 o have 3:
    "snd (api_upload store 1700000000123 store_fs None (Some (''a.txt'', ''new'')))
         ''/srv/store/a.txt''
       = Some (File ''old'')"
    by simp
  from g e x n f 1 2 3 show ?thesis by blast
qed

section \<open>Creating a directory\<close>
















end
